theory Spec2Isabelle
  imports Complex_Main "HOL-Library.AList" "HOL-Library.Multiset" "HOL-Library.Word"
    "HOL-Library.Stream"
begin

section \<open>Data model of the heatmap pipeline\<close>

text \<open>
  A saliency map is a two-dimensional numpy array of floats, held row by row. Its cells
  are modelled as exact reals: the file reasons about the arithmetic the code asks for,
  not about the rounding of float32. An image is a two-dimensional array of BGR pixels
  of type uint8. A prediction set and a map collection are Python dictionaries; they are
  association lists in insertion order, which is the order \<open>items()\<close> yields.
\<close>

type_synonym heatmap = "real list list"
type_synonym pixel = "8 word \<times> 8 word \<times> 8 word"
type_synonym image = "pixel list list"
type_synonym predictions = "(string \<times> real) list"
type_synonym heatmaps = "(string \<times> heatmap) list"

datatype py_error = ValueError

text \<open>\<open>arr.shape[0]\<close> and \<open>arr.shape[1]\<close> of a two-dimensional array.\<close>

definition shape0 :: "'a list list \<Rightarrow> nat" where
  "shape0 m = length m"

definition shape1 :: "'a list list \<Rightarrow> nat" where
  "shape1 m = (case m of [] \<Rightarrow> 0 | r # _ \<Rightarrow> length r)"

text \<open>A list of rows is an array of shape \<open>(h, w)\<close> when it has \<open>h\<close> rows of length \<open>w\<close>.\<close>

definition has_shape :: "'a list list \<Rightarrow> nat \<Rightarrow> nat \<Rightarrow> bool" where
  "has_shape m h w = (length m = h \<and> list_all (\<lambda>r. length r = w) m)"

subsection \<open>Python and numpy primitives\<close>

text \<open>\<open>int(x)\<close> on a float truncates toward zero.\<close>

definition py_int :: "real \<Rightarrow> int" where
  "py_int x = (if 0 \<le> x then \<lfloor>x\<rfloor> else \<lceil>x\<rceil>)"

text \<open>
  \<open>np.argmax\<close> scans the flattened array and keeps the first position of the largest
  value; on an empty array it raises \<open>ValueError\<close>.
\<close>

fun argmax_from :: "real \<Rightarrow> nat \<Rightarrow> nat \<Rightarrow> real list \<Rightarrow> nat" where
  "argmax_from best bi i [] = bi"
| "argmax_from best bi i (x # xs) =
     (if best < x then argmax_from x i (Suc i) xs else argmax_from best bi (Suc i) xs)"

definition np_argmax :: "heatmap \<Rightarrow> py_error + nat" where
  "np_argmax m = (case concat m of [] \<Rightarrow> Inl ValueError | x # xs \<Rightarrow> Inr (argmax_from x 0 1 xs))"

text \<open>\<open>np.unravel_index(k, shape)\<close> for a two-dimensional shape: \<open>(row, column)\<close>.\<close>

definition unravel_index :: "nat \<Rightarrow> heatmap \<Rightarrow> nat \<times> nat" where
  "unravel_index k m = (k div shape1 m, k mod shape1 m)"

text \<open>
  \<open>sorted(xs, key=f, reverse=True)\<close>: Python reverses the list, sorts it with its stable
  ascending sort and reverses the result, so that equal keys keep their original order.
\<close>

definition sorted_reverse :: "('a \<Rightarrow> real) \<Rightarrow> 'a list \<Rightarrow> 'a list" where
  "sorted_reverse f xs = rev (sort_key f (rev xs))"

section \<open>Map post-processor\<close>

subsection \<open>The classifier and the attribution library\<close>

text \<open>
  The classifier and Captum are not code of this repository; they are parameters of the
  model. \<open>pathologies\<close> is the classifier's own list of class names (one per output);
  \<open>gradcam_attribute x idx\<close> is the Grad-CAM attribution of the target layer for the input
  \<open>x\<close> and the output \<open>idx\<close>, and \<open>interpolate a size\<close> is its bicubic resampling to
  \<open>size\<close>, both as the one channel of the one sample that \<open>upsampled[0, 0]\<close> selects.
\<close>

record 'x engine =
  pathologies :: "string list"
  gradcam_attribute :: "'x \<Rightarrow> nat \<Rightarrow> heatmap"
  interpolate :: "heatmap \<Rightarrow> nat \<times> nat \<Rightarrow> heatmap"

subsection \<open>Gaussian smoothing\<close>

text \<open>
  \<open>cv2.GaussianBlur(m, (5, 5), 0)\<close>, with \<open>blur_factor = 5\<close>: for a kernel of size 5 and
  sigma 0 OpenCV takes the fixed kernel 1/16, 4/16, 6/16, 4/16, 1/16, filters the rows
  and then the columns with it, and reads cells beyond the border by reflection about
  the outermost cell (\<open>BORDER_REFLECT_101\<close>, the default).
\<close>

definition blur_factor :: nat where
  "blur_factor = 5"

definition gaussian_kernel :: "real list" where
  "gaussian_kernel = [1 / 16, 1 / 4, 3 / 8, 1 / 4, 1 / 16]"

function borderInterpolate :: "int \<Rightarrow> int \<Rightarrow> int" where
  "borderInterpolate p len =
     (if 0 \<le> p \<and> p < len then p
      else if len \<le> 1 then 0
      else borderInterpolate (if p < 0 then - p - 1 + 1 else len - 1 - (p - len) - 1) len)"
  by pat_completeness auto
termination
  by (relation "measure (\<lambda>(p, len). nat (2 * \<bar>p\<bar> + (if p < 0 then 1 else 0)))") auto

declare borderInterpolate.simps [simp del]

definition tap :: "real list \<Rightarrow> int \<Rightarrow> real" where
  "tap xs p = xs ! nat (borderInterpolate p (int (length xs)))"

definition filter_line :: "real list \<Rightarrow> real list" where
  "filter_line xs =
     map (\<lambda>i. \<Sum>k\<leftarrow>[0..<blur_factor]. gaussian_kernel ! k * tap xs (int i + int k - 2))
       [0..<length xs]"

definition filter_columns :: "heatmap \<Rightarrow> heatmap" where
  "filter_columns m =
     map (\<lambda>i. map (\<lambda>j. \<Sum>k\<leftarrow>[0..<blur_factor].
                         gaussian_kernel ! k *
                         (m ! nat (borderInterpolate (int i + int k - 2) (int (length m)))) ! j)
                 [0..<length (m ! i)])
       [0..<length m]"

definition GaussianBlur :: "heatmap \<Rightarrow> heatmap" where
  "GaussianBlur m = filter_columns (map filter_line m)"

subsection \<open>\<open>generate_heatmap\<close>\<close>

text \<open>\<open>np.maximum(heatmap, 0)\<close>, and \<open>np.max\<close>, which raises \<open>ValueError\<close> on an empty array.\<close>

definition np_maximum0 :: "heatmap \<Rightarrow> heatmap" where
  "np_maximum0 m = map (map (max 0)) m"

definition np_max :: "heatmap \<Rightarrow> py_error + real" where
  "np_max m = (case concat m of [] \<Rightarrow> Inl ValueError | x # xs \<Rightarrow> Inr (fold max xs x))"

definition divide_cells :: "heatmap \<Rightarrow> real \<Rightarrow> heatmap" where
  "divide_cells m d = map (map (\<lambda>v. v / d)) m"

definition generate_heatmap :: "'x engine \<Rightarrow> 'x \<Rightarrow> nat \<Rightarrow> py_error + heatmap" where
  "generate_heatmap E input_tensor target_idx =
     (let attributions = gradcam_attribute E input_tensor target_idx;
          upsampled = interpolate E attributions (224, 224);
          heatmap = np_maximum0 upsampled
      in case np_max heatmap of
           Inl e \<Rightarrow> Inl e
         | Inr mx \<Rightarrow> Inr (GaussianBlur (divide_cells heatmap (if mx \<noteq> 0 then mx else 1))))"

text \<open>Every cell of a map lies between \<open>lo\<close> and \<open>hi\<close>.\<close>

definition cells_in :: "real \<Rightarrow> real \<Rightarrow> heatmap \<Rightarrow> bool" where
  "cells_in lo hi m = list_all (list_all (\<lambda>v. lo \<le> v \<and> v \<le> hi)) m"

section \<open>Multi-class aggregator\<close>

subsection \<open>\<open>generate_all_heatmaps\<close>\<close>

text \<open>\<open>xs.index(v)\<close>: the first position of \<open>v\<close>, or \<open>ValueError\<close>.\<close>

fun list_index :: "'a list \<Rightarrow> 'a \<Rightarrow> py_error + nat" where
  "list_index [] v = Inl ValueError"
| "list_index (x # xs) v =
     (if x = v then Inr 0
      else (case list_index xs v of Inl e \<Rightarrow> Inl e | Inr i \<Rightarrow> Inr (Suc i)))"

text \<open>
  The loop of lines 36 to 42. The \<open>try\<close> covers the lookup of the index and the call of
  \<open>generate_heatmap\<close>; a \<open>ValueError\<close> of either one skips the class.
\<close>

fun heatmaps_loop ::
  "'x engine \<Rightarrow> 'x \<Rightarrow> string list \<Rightarrow> predictions \<Rightarrow> heatmaps \<Rightarrow> heatmaps" where
  "heatmaps_loop E x known [] hms = hms"
| "heatmaps_loop E x known ((disease, prob) # rest) hms =
     (case list_index known disease of
        Inl ValueError \<Rightarrow> heatmaps_loop E x known rest hms
      | Inr target_idx \<Rightarrow>
          (if target_idx < length (pathologies E) then
             (case generate_heatmap E x target_idx of
                Inl ValueError \<Rightarrow> heatmaps_loop E x known rest hms
              | Inr hm \<Rightarrow> heatmaps_loop E x known rest (AList.update disease hm hms))
           else heatmaps_loop E x known rest hms))"

definition generate_all_heatmaps ::
  "'x engine \<Rightarrow> 'x \<Rightarrow> predictions \<Rightarrow> string list \<Rightarrow> heatmaps \<times> string list" where
  "generate_all_heatmaps E input_tensor preds known =
     (let sorted_preds = sorted_reverse snd preds
      in (heatmaps_loop E input_tensor known sorted_preds [], map fst sorted_preds))"

text \<open>
  The map that the body of the loop stores for a class, if it stores one: the class
  resolves in the list of known classes, at an index that the classifier has, and
  \<open>generate_heatmap\<close> returns.
\<close>

definition stored :: "'x engine \<Rightarrow> 'x \<Rightarrow> string list \<Rightarrow> string \<Rightarrow> heatmap option" where
  "stored E x known d =
     (case list_index known d of
        Inl e \<Rightarrow> None
      | Inr i \<Rightarrow> if i < length (pathologies E)
                 then (case generate_heatmap E x i of Inl e \<Rightarrow> None | Inr hm \<Rightarrow> Some hm)
                 else None)"

subsection \<open>The class list of \<open>ModelManager\<close>\<close>

text \<open>
  \<open>ModelManager.__init__\<close>: the classifier's own names, followed by the dataset diseases
  that are not among them.
\<close>

definition dataset_diseases :: "string list" where
  "dataset_diseases = [''COVID'', ''Lung_Opacity'', ''NORMAL'', ''PNEUMONIA'', ''Tuberculosis'']"

fun append_missing :: "string list \<Rightarrow> string list \<Rightarrow> string list" where
  "append_missing ps [] = ps"
| "append_missing ps (d # ds) = append_missing (if d \<in> set ps then ps else ps @ [d]) ds"

definition manager_pathologies :: "string list \<Rightarrow> string list" where
  "manager_pathologies original_pathologies = append_missing original_pathologies dataset_diseases"

text \<open>
  An engine for evaluating the model on concrete inputs: the attribution is a map of one
  cell, whose bicubic resampling to any size is constant.
\<close>

definition constant_engine :: "string list \<Rightarrow> real \<Rightarrow> unit engine" where
  "constant_engine names v =
     \<lparr>pathologies = names,
      gradcam_attribute = (\<lambda>x idx. [[v]]),
      interpolate = (\<lambda>a size. replicate (fst size) (replicate (snd size) (hd (hd a))))\<rparr>"

section \<open>Region locator: the peak of a map, rescaled to the image\<close>

text \<open>
  Lines 127 and 128 of \<open>generate_circle_overlay\<close>:
  \<open>y, x = np.unravel_index(np.argmax(heatmap), heatmap.shape)\<close> and
  \<open>center = (int(x * W / w), int(y * H / h))\<close>, with \<open>(H, W)\<close> the shape of the image and
  \<open>(h, w)\<close> the shape of the map. The centre is an OpenCV point: column first.
\<close>

definition rescale :: "nat \<Rightarrow> nat \<Rightarrow> nat \<Rightarrow> int" where
  "rescale c img_dim map_dim = py_int (real c * real img_dim / real map_dim)"

definition circle_center :: "image \<Rightarrow> heatmap \<Rightarrow> py_error + (int \<times> int)" where
  "circle_center original_img hm =
     (case np_argmax hm of
        Inl e \<Rightarrow> Inl e
      | Inr k \<Rightarrow>
          (let (y, x) = unravel_index k hm
           in Inr (rescale x (shape1 original_img) (shape1 hm),
                   rescale y (shape0 original_img) (shape0 hm))))"

text \<open>
  The rescaling the specification words ask for: each coordinate scaled by the ratio of
  the image dimension to the map dimension and rounded to the nearest integer.
\<close>

definition rescale_nearest_spec :: "nat \<Rightarrow> nat \<Rightarrow> nat \<Rightarrow> int" where
  "rescale_nearest_spec c img_dim map_dim = round (real c * real img_dim / real map_dim)"

section \<open>Region overlays\<close>

subsection \<open>The drawing primitives of OpenCV\<close>

text \<open>
  The rasteriser of \<open>cv2.circle\<close> and the font renderer of \<open>cv2.putText\<close> are not code
  of this repository; they are parameters of the model. \<open>circle_covers c r (x, y)\<close> says
  that the filled circle of centre \<open>c\<close> and radius \<open>r\<close> paints the pixel in column \<open>x\<close> of
  row \<open>y\<close>; \<open>putText img s pos\<close> is the image with the string drawn at \<open>pos\<close>; and
  \<open>format_1f v\<close> is the text of \<open>v\<close> under the format \<open>.1f\<close>.
\<close>

record drawing =
  circle_covers :: "int \<times> int \<Rightarrow> int \<Rightarrow> int \<times> int \<Rightarrow> bool"
  putText :: "image \<Rightarrow> string \<Rightarrow> int \<times> int \<Rightarrow> image"
  format_1f :: "real \<Rightarrow> string"

text \<open>\<open>cvRound\<close> rounds to the nearest integer, a tie to the even one.\<close>

definition cvRound :: "real \<Rightarrow> int" where
  "cvRound v =
     (let f = \<lfloor>v\<rfloor>; d = v - of_int f
      in if d < 1 / 2 then f else if 1 / 2 < d then f + 1 else if even f then f else f + 1)"

text \<open>\<open>saturate_cast<uchar>\<close> clamps to 0..255.\<close>

definition saturate_u8 :: "int \<Rightarrow> 8 word" where
  "saturate_u8 v = word_of_int (max 0 (min 255 v))"

text \<open>
  \<open>cv2.addWeighted(src1, alpha, src2, beta, gamma)\<close>: every channel of every pixel is
  \<open>saturate(round(src1 * alpha + src2 * beta + gamma))\<close>.
\<close>

definition blend_channel :: "real \<Rightarrow> real \<Rightarrow> real \<Rightarrow> 8 word \<Rightarrow> 8 word \<Rightarrow> 8 word" where
  "blend_channel alpha beta gamma a b =
     saturate_u8 (cvRound (real (unat a) * alpha + real (unat b) * beta + gamma))"

definition blend_pixel :: "real \<Rightarrow> real \<Rightarrow> real \<Rightarrow> pixel \<Rightarrow> pixel \<Rightarrow> pixel" where
  "blend_pixel alpha beta gamma p q =
     (case p of (b1, g1, r1) \<Rightarrow> case q of (b2, g2, r2) \<Rightarrow>
        (blend_channel alpha beta gamma b1 b2,
         blend_channel alpha beta gamma g1 g2,
         blend_channel alpha beta gamma r1 r2))"

definition addWeighted :: "image \<Rightarrow> real \<Rightarrow> image \<Rightarrow> real \<Rightarrow> real \<Rightarrow> image" where
  "addWeighted src1 alpha src2 beta gamma =
     map2 (map2 (blend_pixel alpha beta gamma)) src1 src2"

text \<open>
  \<open>cv2.circle(img, center, radius, color, -1)\<close>: the pixels the filled circle covers take
  the colour, saturated to uint8; every other pixel is left as it is.
\<close>

definition cv2_circle ::
  "drawing \<Rightarrow> image \<Rightarrow> int \<times> int \<Rightarrow> int \<Rightarrow> nat \<times> nat \<times> nat \<Rightarrow> image" where
  "cv2_circle D img center radius bgr =
     (let paint = (case bgr of (b, g, r) \<Rightarrow>
                     (saturate_u8 (int b), saturate_u8 (int g), saturate_u8 (int r)))
      in map (\<lambda>(y, row).
               map (\<lambda>(x, p). if circle_covers D center radius (int x, int y) then paint else p)
                 (enumerate 0 row))
           (enumerate 0 img))"

subsection \<open>The random generator\<close>

text \<open>
  The state of Python's \<open>random\<close> module is the stream of the values its next calls of
  \<open>randint(0, 255)\<close> return; a call takes the head of the stream.
\<close>

type_synonym rng = "8 word stream"

definition randint_0_255 :: "rng \<Rightarrow> nat \<times> rng" where
  "randint_0_255 g = (unat (shd g), stl g)"

subsection \<open>\<open>generate_circle_overlay\<close>\<close>

text \<open>Colours are \<open>(blue, green, red, alpha)\<close>.\<close>

type_synonym color = "nat \<times> nat \<times> nat \<times> nat"

definition colors :: "(string \<times> color) list" where
  "colors =
     [(''Pneumonia'', (0, 0, 255, 128)),
      (''Tuberculosis'', (0, 255, 255, 128)),
      (''COVID'', (0, 165, 255, 128)),
      (''Atelectasis'', (255, 0, 0, 128)),
      (''Cardiomegaly'', (0, 255, 0, 128)),
      (''Pneumothorax'', (255, 0, 255, 128))]"

text \<open>
  \<open>colors.get(disease, (randint(0,255), randint(0,255), randint(0,255), 128))\<close>: Python
  evaluates the default before the lookup, so the three draws happen at every call,
  whether the class is in the table or not.
\<close>

definition resolve_color :: "rng \<Rightarrow> string \<Rightarrow> color \<times> rng" where
  "resolve_color g disease =
     (let (b, g1) = randint_0_255 g;
          (gr, g2) = randint_0_255 g1;
          (r, g3) = randint_0_255 g2
      in (case map_of colors disease of Some c \<Rightarrow> c | None \<Rightarrow> (b, gr, r, 128), g3))"

text \<open>\<open>radius = int(min(original_img.shape[:2]) * 0.15)\<close>.\<close>

definition circle_radius :: "image \<Rightarrow> int" where
  "circle_radius original_img =
     py_int (real (min (shape0 original_img) (shape1 original_img)) * (15 / 100))"

definition generate_circle_overlay ::
  "drawing \<Rightarrow> rng \<Rightarrow> image \<Rightarrow> string \<Rightarrow> heatmap option \<Rightarrow> py_error + (image \<times> rng)" where
  "generate_circle_overlay D g original_img disease heatmap =
     (case heatmap of
        None \<Rightarrow> Inr (original_img, g)
      | Some hm \<Rightarrow>
          (case circle_center original_img hm of
             Inl e \<Rightarrow> Inl e
           | Inr center \<Rightarrow>
               (let radius = circle_radius original_img;
                    (color, g') = resolve_color g disease;
                    (cb, cg, cr, ca) = color;
                    overlay = cv2_circle D original_img center radius (cb, cg, cr);
                    alpha = real ca / 255
                in Inr (addWeighted overlay alpha original_img (1 - alpha) 0, g'))))"

subsection \<open>\<open>create_multi_circle_overlay\<close>\<close>








subsection \<open>A concrete drawing environment\<close>

text \<open>
  For evaluating the model on small inputs: the filled circle is the Euclidean disc, and
  the label leaves the image as it is, which is what \<open>putText\<close> does when the text lies
  outside the canvas (on an image one pixel high the label is placed 19 or 20 rows above
  row 0).
\<close>

definition euclid_disc :: "int \<times> int \<Rightarrow> int \<Rightarrow> int \<times> int \<Rightarrow> bool" where
  "euclid_disc c r p = ((fst p - fst c)\<^sup>2 + (snd p - snd c)\<^sup>2 \<le> r\<^sup>2)"

definition tiny_canvas :: drawing where
  "tiny_canvas = \<lparr>circle_covers = euclid_disc, putText = (\<lambda>img s pos. img), format_1f = (\<lambda>v. [])\<rparr>"

text \<open>A generator whose successive draws are 0, 1, 2, ...\<close>

definition counting_rng :: "8 word \<Rightarrow> rng" where
  "counting_rng n = siterate (\<lambda>w. w + 1) n"

section \<open>Compositor and combined map\<close>

subsection \<open>\<open>overlay_heatmap\<close>\<close>

text \<open>
  The resampling and the colour map of OpenCV are not code of this repository; they are
  parameters of the model. \<open>resize_cubic img (w, h)\<close> and \<open>resize_cubic_map m (w, h)\<close> are
  \<open>cv2.resize\<close> with \<open>INTER_CUBIC\<close> on an image and on a map, \<open>resize_area\<close> is
  \<open>cv2.resize\<close> with \<open>INTER_AREA\<close>, and \<open>applyColorMap\<close> is \<open>cv2.applyColorMap\<close> with
  \<open>COLORMAP_JET\<close>. Sizes are OpenCV sizes: width first.
\<close>

record imgproc =
  resize_cubic :: "image \<Rightarrow> nat \<times> nat \<Rightarrow> image"
  resize_cubic_map :: "heatmap \<Rightarrow> nat \<times> nat \<Rightarrow> heatmap"
  resize_area :: "image \<Rightarrow> nat \<times> nat \<Rightarrow> image"
  applyColorMap :: "8 word list list \<Rightarrow> image"

definition resolution_factor :: nat where
  "resolution_factor = 16"

text \<open>\<open>np.uint8(v)\<close> on a float: the fraction is dropped and the integer wraps modulo 256.\<close>

definition np_uint8 :: "real \<Rightarrow> 8 word" where
  "np_uint8 v = word_of_int (py_int v)"

text \<open>
  \<open>cv2.addWeighted\<close> wants two images of one size; they are of one size here when
  \<open>cv2.resize\<close> returns the size it is asked for.
\<close>

definition overlay_heatmap :: "imgproc \<Rightarrow> image \<Rightarrow> heatmap \<Rightarrow> real \<Rightarrow> image" where
  "overlay_heatmap P original_img heatmap alpha =
     (let high_res_shape = (shape1 original_img * resolution_factor,
                            shape0 original_img * resolution_factor);
          original_hr = resize_cubic P original_img high_res_shape;
          heatmap_hr = resize_cubic_map P heatmap high_res_shape;
          heatmap_u8 = map (map (\<lambda>v. np_uint8 (255 * v))) heatmap_hr;
          colored = applyColorMap P heatmap_u8;
          overlay = addWeighted original_hr (1 - alpha) colored alpha 0
      in resize_area P overlay (shape1 original_img, shape0 original_img))"

subsection \<open>\<open>create_combined_heatmap\<close>\<close>

definition np_zeros :: "nat \<Rightarrow> nat \<Rightarrow> heatmap" where
  "np_zeros h w = replicate h (replicate w 0)"

definition scale_cells :: "heatmap \<Rightarrow> real \<Rightarrow> heatmap" where
  "scale_cells m weight = map (map (\<lambda>v. v * weight)) m"

text \<open>
  \<open>avg += m\<close> on arrays: \<open>m\<close> is broadcast to the shape of \<open>avg\<close> (a dimension of
  length 1 is repeated) and added cell by cell; shapes that do not broadcast raise
  \<open>ValueError\<close>.
\<close>

definition broadcast_to :: "heatmap \<Rightarrow> nat \<Rightarrow> nat \<Rightarrow> py_error + heatmap" where
  "broadcast_to m h w =
     (if (shape0 m = h \<or> shape0 m = 1) \<and> (shape1 m = w \<or> shape1 m = 1)
      then Inr (map (\<lambda>i. map (\<lambda>j. m ! (if shape0 m = 1 then 0 else i)
                                      ! (if shape1 m = 1 then 0 else j)) [0..<w]) [0..<h])
      else Inl ValueError)"

definition iadd :: "heatmap \<Rightarrow> heatmap \<Rightarrow> py_error + heatmap" where
  "iadd avg m =
     (case broadcast_to m (shape0 avg) (shape1 avg) of
        Inl e \<Rightarrow> Inl e
      | Inr b \<Rightarrow> Inr (map2 (map2 (+)) avg b))"

text \<open>\<open>predictions.get(disease, 0)\<close>.\<close>

definition get_weight :: "predictions \<Rightarrow> string \<Rightarrow> real" where
  "get_weight preds disease = (case map_of preds disease of Some w \<Rightarrow> w | None \<Rightarrow> 0)"

fun combine_loop :: "heatmaps \<Rightarrow> predictions \<Rightarrow> heatmap \<times> real \<Rightarrow> py_error + (heatmap \<times> real)" where
  "combine_loop [] preds acc = Inr acc"
| "combine_loop ((disease, hmap) # rest) preds acc =
     (case acc of (avg_heatmap, total_weight) \<Rightarrow>
        (let weight = get_weight preds disease
         in case iadd avg_heatmap (scale_cells hmap weight) of
              Inl e \<Rightarrow> Inl e
            | Inr avg' \<Rightarrow> combine_loop rest preds (avg', total_weight + weight)))"

text \<open>The averaged and smoothed map of lines 51 to 63, which line 65 hands to the overlay.\<close>

definition combined_heatmap :: "heatmaps \<Rightarrow> predictions \<Rightarrow> py_error + heatmap" where
  "combined_heatmap hms preds =
     (case combine_loop hms preds (np_zeros 224 224, 0) of
        Inl e \<Rightarrow> Inl e
      | Inr (avg_heatmap, total_weight) \<Rightarrow>
          Inr (GaussianBlur (if 0 < total_weight then divide_cells avg_heatmap total_weight
                             else avg_heatmap)))"

definition create_combined_heatmap ::
  "imgproc \<Rightarrow> image \<Rightarrow> heatmaps \<Rightarrow> predictions \<Rightarrow> py_error + image" where
  "create_combined_heatmap P original_img hms preds =
     (if hms = [] then Inr original_img
      else (case combined_heatmap hms preds of
              Inl e \<Rightarrow> Inl e
            | Inr avg_heatmap \<Rightarrow> Inr (overlay_heatmap P original_img avg_heatmap (1 / 2))))"

text \<open>
  Resampling for images and maps of one pixel or cell, which is constant whatever the
  filter, with the one colour that \<open>COLORMAP_JET\<close> gives to the value 0.
\<close>

definition one_pixel_imgproc :: imgproc where
  "one_pixel_imgproc =
     \<lparr>resize_cubic = (\<lambda>img size. replicate (snd size) (replicate (fst size) (hd (hd img)))),
      resize_cubic_map = (\<lambda>m size. replicate (snd size) (replicate (fst size) (hd (hd m)))),
      resize_area = (\<lambda>img size. replicate (snd size) (replicate (fst size) (hd (hd img)))),
      applyColorMap = map (map (\<lambda>v. (128, 0, 0)))\<rparr>"

section \<open>Rescaling of coordinates\<close>

lemma py_int_nonneg_ratio: "py_int (real a / real b) = int (a div b)"
proof -
  have "0 \<le> real a / real b" by simp
  then have "py_int (real a / real b) = \<lfloor>real a / real b\<rfloor>" by (simp add: py_int_def)
  also have "\<dots> = int (a div b)"
    by (simp add: floor_divide_of_nat_eq)
  finally show ?thesis .
qed

lemma rescale_div: "rescale c img_dim map_dim = int (c * img_dim div map_dim)"
  unfolding rescale_def using py_int_nonneg_ratio [of "c * img_dim" map_dim] by simp

lemma rescale_floor: "rescale c img_dim map_dim = \<lfloor>real c * real img_dim / real map_dim\<rfloor>"
  by (simp add: rescale_def py_int_def)

text \<open>
  Claim C5, as the code has it. The centre of the region is the peak of the map with its
  column scaled by image width over map width and its row by image height over map
  height, each on its own, and each rounded down to the integer below (\<open>int()\<close>
  truncates, and the scaled coordinate is never negative): it is not rounded to the
  nearest integer.
\<close>

theorem circle_center_rounds_down:
  assumes "np_argmax hm = Inr k" and "unravel_index k hm = (y, x)"
  shows "circle_center img hm =
           Inr (\<lfloor>real x * real (shape1 img) / real (shape1 hm)\<rfloor>,
                \<lfloor>real y * real (shape0 img) / real (shape0 hm)\<rfloor>)"
  using assms by (simp add: circle_center_def rescale_floor)

theorem circle_center_rounds_down_witness:
  "np_argmax [[0, 0, 1]] = Inr 2 \<and> unravel_index 2 [[0, 0, 1]] = (0, 2) \<and>
   circle_center [[(0, 0, 0), (0, 0, 0), (0, 0, 0), (0, 0, 0)]] [[0, 0, 1]] = Inr (2, 0)"
proof -
  have a: "np_argmax [[0, 0, 1]] = Inr 2"
    by (simp add: np_argmax_def)
  have u: "unravel_index 2 [[0, 0, 1]] = (0, 2)"
    by (simp add: unravel_index_def shape1_def)
  show ?thesis
    using a u circle_center_rounds_down [OF a u, of "[[(0, 0, 0), (0, 0, 0), (0, 0, 0), (0, 0, 0)]]"]
    by (simp add: shape1_def shape0_def)
qed

text \<open>
  A map three cells wide with its peak in column 2, over an image four pixels wide: the
  scaled column is 8/3, whose nearest integer is 3, and the code yields 2.
\<close>

theorem circle_center_not_nearest:
  "circle_center [[(0, 0, 0), (0, 0, 0), (0, 0, 0), (0, 0, 0)]] [[0, 0, 1]] = Inr (2, 0) \<and>
   rescale_nearest_spec 2 4 3 = 3"
  by (simp add: circle_center_def np_argmax_def unravel_index_def shape1_def shape0_def
      rescale_div rescale_nearest_spec_def round_def)

section \<open>Disc overlays: what lies outside the disc\<close>

lemma cvRound_of_int: "cvRound (of_int n) = n"
  by (simp add: cvRound_def)

lemma saturate_uint: "saturate_u8 (uint (a::8 word)) = a"
proof -
  have "uint a < 256" using uint_bounded [of a] by simp
  moreover have "0 \<le> uint a" by simp
  ultimately have "max 0 (min 255 (uint a)) = uint a" by linarith
  then show ?thesis by (simp add: saturate_u8_def)
qed

lemma saturate_unat: "saturate_u8 (int (unat (a::8 word))) = a"
  using saturate_uint [of a] by simp

lemma blend_channel_same: "blend_channel alpha (1 - alpha) 0 a a = a"
proof -
  have "real (unat a) * alpha + real (unat a) * (1 - alpha) + 0 = of_int (int (unat a))"
    by (simp add: algebra_simps)
  then have "cvRound (real (unat a) * alpha + real (unat a) * (1 - alpha) + 0) = int (unat a)"
    using cvRound_of_int [of "int (unat a)"] by simp
  then show ?thesis
    unfolding blend_channel_def using saturate_unat [of a] by simp
qed

lemma blend_pixel_same: "blend_pixel alpha (1 - alpha) 0 p p = p"
  by (cases p) (simp add: blend_pixel_def blend_channel_same)

lemma length_cv2_circle: "length (cv2_circle D img c r col) = length img"
  by (simp add: cv2_circle_def Let_def)

lemma nth_cv2_circle_row:
  "y < length img \<Longrightarrow> length (cv2_circle D img c r col ! y) = length (img ! y)"
  by (simp add: cv2_circle_def Let_def nth_enumerate_eq)

lemma nth_cv2_circle_outside:
  "y < length img \<Longrightarrow> x < length (img ! y) \<Longrightarrow> \<not> circle_covers D c r (int x, int y) \<Longrightarrow>
   cv2_circle D img c r col ! y ! x = img ! y ! x"
  by (simp add: cv2_circle_def Let_def nth_enumerate_eq)

lemma length_addWeighted: "length (addWeighted a al b be ga) = min (length a) (length b)"
  by (simp add: addWeighted_def)

lemma nth_addWeighted:
  "y < length a \<Longrightarrow> y < length b \<Longrightarrow> x < length (a ! y) \<Longrightarrow> x < length (b ! y) \<Longrightarrow>
   addWeighted a al b be ga ! y ! x = blend_pixel al be ga (a ! y ! x) (b ! y ! x)"
  by (simp add: addWeighted_def)

lemma row_addWeighted:
  "y < length a \<Longrightarrow> y < length b \<Longrightarrow>
   length (addWeighted a al b be ga ! y) = min (length (a ! y)) (length (b ! y))"
  by (simp add: addWeighted_def)

lemma blend_circle_frame:
  assumes "res = addWeighted (cv2_circle D img c r col) alpha img (1 - alpha) 0"
  shows "length res = length img"
    and "y < length img \<Longrightarrow> length (res ! y) = length (img ! y)"
    and "y < length img \<Longrightarrow> x < length (img ! y) \<Longrightarrow> \<not> circle_covers D c r (int x, int y) \<Longrightarrow>
         res ! y ! x = img ! y ! x"
proof -
  show "length res = length img"
    by (simp add: assms length_addWeighted length_cv2_circle)
  show "y < length img \<Longrightarrow> length (res ! y) = length (img ! y)"
    by (simp add: assms row_addWeighted length_cv2_circle nth_cv2_circle_row)
  show "y < length img \<Longrightarrow> x < length (img ! y) \<Longrightarrow> \<not> circle_covers D c r (int x, int y) \<Longrightarrow>
         res ! y ! x = img ! y ! x"
    by (simp add: assms nth_addWeighted length_cv2_circle nth_cv2_circle_row
        nth_cv2_circle_outside blend_pixel_same)
qed

lemma generate_circle_overlay_Some:
  assumes "circle_center img hm = Inr c" and "resolve_color g d = ((cb, cg, cr, ca), g')"
  shows "generate_circle_overlay D g img d (Some hm) =
           Inr (addWeighted (cv2_circle D img c (circle_radius img) (cb, cg, cr))
                  (real ca / 255) img (1 - real ca / 255) 0, g')"
  using assms by (simp add: generate_circle_overlay_def Let_def)

lemma resolve_color_unmapped:
  assumes "map_of colors d = None"
  shows "resolve_color g d =
           ((unat (shd g), unat (shd (stl g)), unat (shd (stl (stl g))), 128), stl (stl (stl g)))"
  using assms by (simp add: resolve_color_def randint_0_255_def)

lemma resolve_color_mapped:
  assumes "map_of colors d = Some col"
  shows "resolve_color g d = (col, stl (stl (stl g)))"
  using assms by (simp add: resolve_color_def randint_0_255_def)

subsection \<open>Evaluation on images of one row\<close>

lemma center_1x1: "circle_center [[p]] [[1]] = Inr (0, 0)"
  by (simp add: circle_center_def np_argmax_def unravel_index_def shape0_def shape1_def rescale_div)

lemma radius_1x1: "circle_radius [[p]] = 0"
  by (simp add: circle_radius_def shape0_def shape1_def py_int_def)


lemma circle_1x1: "cv2_circle tiny_canvas [[p]] (0, 0) 0 (b, g, r) = [[(saturate_u8 (int b), saturate_u8 (int g), saturate_u8 (int r))]]"
  by (simp add: cv2_circle_def tiny_canvas_def euclid_disc_def)


lemma stl_counting: "stl (counting_rng n) = counting_rng (n + 1)" and shd_counting: "shd (counting_rng n) = n"
  by (simp_all add: counting_rng_def)

lemma no_edema: "map_of colors ''Edema'' = None"
  by (simp add: colors_def)

lemma col_P: "map_of colors ''Pneumonia'' = Some (0, 0, 255, 128)"
  by (simp add: colors_def)

lemma blend_1x1: "addWeighted [[(b1, g1, r1)]] al [[(b2, g2, r2)]] be ga =
   [[(blend_channel al be ga b1 b2, blend_channel al be ga g1 g2, blend_channel al be ga r1 r2)]]"
  by (simp add: addWeighted_def blend_pixel_def)

lemma bc1: "blend_channel (128 / 255) (127 / 255) 0 0 0 = 0"
  "blend_channel (128 / 255) (127 / 255) 0 1 0 = 1"
  "blend_channel (128 / 255) (127 / 255) 0 2 0 = 1"
  "blend_channel (128 / 255) (127 / 255) 0 3 0 = 2"
  "blend_channel (128 / 255) (127 / 255) 0 4 0 = 2"
  "blend_channel (128 / 255) (127 / 255) 0 5 0 = 3"
  "blend_channel (128 / 255) (127 / 255) 0 255 0 = 128"
  "blend_channel (128 / 255) (127 / 255) 0 0 128 = 64"
  by (simp_all add: blend_channel_def cvRound_def saturate_u8_def)

lemma sat_small: "saturate_u8 0 = 0" "saturate_u8 1 = 1" "saturate_u8 2 = 2" "saturate_u8 3 = 3" "saturate_u8 4 = 4" "saturate_u8 5 = 5" "saturate_u8 255 = 255"
  by (simp_all add: saturate_u8_def)

lemma center_1x2: "circle_center [[p, q]] [[1]] = Inr (0, 0)"
  by (simp add: circle_center_def np_argmax_def unravel_index_def shape0_def shape1_def rescale_div)

lemma radius_1x2: "circle_radius [[p, q]] = 0"
  by (simp add: circle_radius_def shape0_def shape1_def py_int_def)

lemma circle_1x2:
  "cv2_circle tiny_canvas [[p, q]] (0, 0) 0 (b, g, r) =
     [[(saturate_u8 (int b), saturate_u8 (int g), saturate_u8 (int r)), q]]"
  by (simp add: cv2_circle_def tiny_canvas_def euclid_disc_def)

lemma blend_1x2:
  "addWeighted [[p1, q]] al [[p2, q]] (1 - al) 0 =
     [[blend_pixel al (1 - al) 0 p1 p2, q]]"
  by (simp add: addWeighted_def blend_pixel_same)

lemma blend_pixel_eval: "blend_pixel al be ga (b1, g1, r1) (b2, g2, r2) =
   (blend_channel al be ga b1 b2, blend_channel al be ga g1 g2, blend_channel al be ga r1 r2)"
  by (simp add: blend_pixel_def)

lemma overlay_1x2:
  "generate_circle_overlay tiny_canvas (counting_rng 0) [[(0, 0, 0), (7, 7, 7)]] ''Pneumonia'' (Some [[1]])
     = Inr ([[(0, 0, 128), (7, 7, 7)]], counting_rng 3)"
proof -
  have "addWeighted [[(0, 0, 255), (7, 7, 7)]] (128 / 255) [[(0, 0, 0), (7, 7, 7)]] (1 - 128 / 255) 0
          = [[(0, 0, 128), (7, 7, 7 :: 8 word)]]"
    unfolding blend_1x2 blend_pixel_eval by (simp add: bc1)
  then show ?thesis
  using generate_circle_overlay_Some [OF center_1x2 [of "(0, 0, 0)" "(7, 7, 7)"] resolve_color_mapped [OF col_P, of "counting_rng 0"], of tiny_canvas]
    by (simp add: radius_1x2 stl_counting circle_1x2 sat_small)
qed

lemma outside_1x2: "\<not> circle_covers tiny_canvas (0, 0) (circle_radius [[(0, 0, 0), (7, 7, 7)]]) (1, 0)"
  by (simp add: radius_1x2 tiny_canvas_def euclid_disc_def)

text \<open>
  Claim C8. A disc overlay has the shape of the input image, and every pixel that the
  filled circle does not cover is the pixel of the input image: the full-canvas blend
  changes the pixels of the disc only. With no map, the image is returned as it is.
\<close>

theorem circle_overlay_frame:
  assumes "circle_center img hm = Inr c"
      and "generate_circle_overlay D g img d (Some hm) = Inr (res, g')"
  shows "length res = length img \<and>
         (\<forall>y<length img. length (res ! y) = length (img ! y) \<and>
            (\<forall>x<length (img ! y).
               \<not> circle_covers D c (circle_radius img) (int x, int y) \<longrightarrow>
               res ! y ! x = img ! y ! x)) \<and>
         generate_circle_overlay D g img d None = Inr (img, g)"
proof -
  have none: "generate_circle_overlay D g img d None = Inr (img, g)"
    by (simp add: generate_circle_overlay_def)
  obtain cb cg cr ca g2 where col: "resolve_color g d = ((cb, cg, cr, ca), g2)"
    by (cases "resolve_color g d") auto
  have res: "res = addWeighted (cv2_circle D img c (circle_radius img) (cb, cg, cr))
                  (real ca / 255) img (1 - real ca / 255) 0"
    using assms(2) generate_circle_overlay_Some [OF assms(1) col, of D] by simp
  show ?thesis
    using blend_circle_frame [OF res] none by blast
qed

theorem circle_overlay_frame_witness:
  "circle_center [[(0, 0, 0), (7, 7, 7)]] [[1]] = Inr (0, 0) \<and>
   generate_circle_overlay tiny_canvas (counting_rng 0) [[(0, 0, 0), (7, 7, 7)]]
       ''Pneumonia'' (Some [[1]])
     = Inr ([[(0, 0, 128), (7, 7, 7)]], counting_rng 3) \<and>
   \<not> circle_covers tiny_canvas (0, 0) (circle_radius [[(0, 0, 0), (7, 7, 7)]]) (1, 0) \<and>
   ([[(0, 0, 128), (7, 7, 7)]] :: image) ! 0 ! 1 = ([[(0, 0, 0), (7, 7, 7)]] :: image) ! 0 ! 1"
  using circle_overlay_frame [OF center_1x2 overlay_1x2] center_1x2 overlay_1x2 outside_1x2
  by simp

section \<open>The fallback colour\<close>

text \<open>
  What \<open>generate_circle_overlay\<close> does for a class that the colour table does not
  hold: the disc overlay of a non-empty map succeeds, and its colour is the next three
  draws of the random generator at that call, with alpha 128; the generator is left
  three draws further. The colour depends on the state of the generator, not on the
  class name.
\<close>

lemma fallback_color_from_generator:
  assumes "map_of colors d = None" and "circle_center img hm = Inr c"
  shows "generate_circle_overlay D g img d (Some hm) =
           Inr (addWeighted
                  (cv2_circle D img c (circle_radius img)
                     (unat (shd g), unat (shd (stl g)), unat (shd (stl (stl g)))))
                  (128 / 255) img (1 - 128 / 255) 0,
                stl (stl (stl g)))"
  using generate_circle_overlay_Some [OF assms(2) resolve_color_unmapped [OF assms(1)], of D g]
  by simp

text \<open>
  Claim C9. A class that the colour table does not hold is to be drawn with a fallback
  colour that stays the same within a run, so that two disc overlays of the same
  unmapped class have the same colour; the disc overlay of the report generator,
  \<open>_draw_circle_overlay\<close>, falls back to one constant colour. \<open>generate_circle_overlay\<close>
  does not: it draws the colour afresh at every call. Two overlays of the unmapped class
  Edema, one after the other in the same run, on the same black pixel and the same map:
  the first is drawn with the colour (0, 1, 2), the second with (3, 4, 5), and the two
  results differ. Both calls return an image, so the overlay itself does not fail.
\<close>

theorem fallback_color_not_stable:
  "generate_circle_overlay tiny_canvas (counting_rng 0) [[(0, 0, 0)]] ''Edema'' (Some [[1]])
     = Inr ([[(0, 1, 1)]], counting_rng 3) \<and>
   generate_circle_overlay tiny_canvas (counting_rng 3) [[(0, 0, 0)]] ''Edema'' (Some [[1]])
     = Inr ([[(2, 2, 3)]], counting_rng 6)"
proof -
  have c: "\<And>n. resolve_color (counting_rng n) ''Edema'' = ((unat n, unat (n + 1), unat (n + 2), 128), counting_rng (n + 3))"
    using resolve_color_unmapped [OF no_edema]
    by (simp add: stl_counting shd_counting add.assoc)
  have "generate_circle_overlay tiny_canvas (counting_rng 0) [[(0, 0, 0)]] ''Edema'' (Some [[1]])
     = Inr ([[(0, 1, 1)]], counting_rng 3)"
    using generate_circle_overlay_Some [OF center_1x1 [of "(0, 0, 0)"] c [of 0], of tiny_canvas]
    by (simp add: radius_1x1 circle_1x1 blend_1x1 bc1 sat_small)
  moreover have "generate_circle_overlay tiny_canvas (counting_rng 3) [[(0, 0, 0)]] ''Edema'' (Some [[1]])
     = Inr ([[(2, 2, 3)]], counting_rng 6)"
    using generate_circle_overlay_Some [OF center_1x1 [of "(0, 0, 0)"] c [of 3], of tiny_canvas]
    by (simp add: radius_1x1 circle_1x1 blend_1x1 bc1 sat_small)
  ultimately show ?thesis by simp
qed

section \<open>Several regions on one image\<close>



lemma set_sorted_reverse: "set (sorted_reverse f xs) = set xs"
  by (simp add: sorted_reverse_def)

lemma sorted_reverse_descending: "sorted_wrt (\<lambda>a b. f b \<le> f a) (sorted_reverse f xs)"
proof -
  have "sorted (map f (sort_key f (rev xs)))" by simp
  then have "sorted_wrt (\<lambda>a b. f a \<le> f b) (sort_key f (rev xs))"
    by (simp add: sorted_map)
  then show ?thesis
    by (simp add: sorted_reverse_def sorted_wrt_rev)
qed














section \<open>Ranking and map collection\<close>

lemma py_error_one: "(e :: py_error) = ValueError"
  by (cases e) simp

lemma list_index_Inl: "list_index xs v = Inl e \<longleftrightarrow> v \<notin> set xs"
  by (induction xs) (auto split: sum.splits simp: py_error_one [of e])

lemma list_index_Inr: "list_index xs v = Inr i \<Longrightarrow> i < length xs \<and> xs ! i = v"
  by (induction xs arbitrary: i) (auto split: sum.splits if_splits)

lemma list_index_append:
  "list_index (xs @ ys) v = Inr i \<Longrightarrow> i < length xs \<Longrightarrow> v \<in> set xs"
  using list_index_Inr [of "xs @ ys" v i] by (auto simp: nth_append)

lemma map_of_heatmaps_loop:
  "map_of (heatmaps_loop E x known ps hms) d =
     (if d \<in> fst ` set ps \<and> stored E x known d \<noteq> None then stored E x known d else map_of hms d)"
proof (induction ps arbitrary: hms)
  case Nil
  then show ?case by simp
next
  case (Cons a ps)
  obtain c p where a: "a = (c, p)" by (cases a)
  show ?case
    unfolding a
    by (cases "list_index known c"; cases "generate_heatmap E x (projr (list_index known c))")
       (auto simp: Cons.IH stored_def update_conv' image_iff split: py_error.splits sum.splits)
qed

lemma append_missing_prefix: "\<exists>extra. append_missing ps ds = ps @ extra"
  by (induction ds arbitrary: ps) (auto, metis append.assoc)

lemma sorted_reverse_stable:
  "filter (\<lambda>r. f r = c) (sorted_reverse f xs) = filter (\<lambda>r. f r = c) xs"
proof -
  have "filter (\<lambda>r. f r = c) (sort_key f (rev xs)) = filter (\<lambda>r. f r = c) (rev xs)"
    by (rule sort_key_stable)
  then show ?thesis
    by (simp add: sorted_reverse_def rev_filter [symmetric])
qed

lemma mset_sorted_reverse: "mset (sorted_reverse f xs) = mset xs"
  by (simp add: sorted_reverse_def)

lemma stored_unknown: "d \<notin> set known \<Longrightarrow> stored E x known d = None"
  using list_index_Inl [of known d ValueError]
  by (auto simp: stored_def split: sum.splits py_error.splits)

lemma map_of_generate_all:
  "map_of (fst (generate_all_heatmaps E x preds known)) d =
     (if d \<in> fst ` set preds then stored E x known d else None)"
  by (auto simp: generate_all_heatmaps_def Let_def map_of_heatmaps_loop set_sorted_reverse)

text \<open>
  Claim C4. The second component is the list of the class names of the whole prediction
  set, skipped classes included, in the order of \<open>sorted_reverse\<close>: a rearrangement of
  the prediction set, in descending confidence, in which the classes of equal confidence
  keep the order they have in the prediction set. A class that is not among the known
  classes has no map in the collection, and the run goes on: every class of the
  prediction set that resolves at an index of the classifier, and for which
  \<open>generate_heatmap\<close> returns, has that map in the collection.
\<close>

theorem generate_all_heatmaps_ranking:
  "snd (generate_all_heatmaps E x preds known) = map fst (sorted_reverse snd preds) \<and>
   mset (sorted_reverse snd preds) = mset preds \<and>
   sorted_wrt (\<lambda>a b. snd b \<le> snd a) (sorted_reverse snd preds) \<and>
   (\<forall>c. filter (\<lambda>r. snd r = c) (sorted_reverse snd preds) = filter (\<lambda>r. snd r = c) preds) \<and>
   (\<forall>d. d \<notin> set known \<longrightarrow> map_of (fst (generate_all_heatmaps E x preds known)) d = None) \<and>
   (\<forall>d p i hm. (d, p) \<in> set preds \<and> list_index known d = Inr i \<and> i < length (pathologies E) \<and>
        generate_heatmap E x i = Inr hm \<longrightarrow>
        map_of (fst (generate_all_heatmaps E x preds known)) d = Some hm)"
proof -
  have 1: "snd (generate_all_heatmaps E x preds known) = map fst (sorted_reverse snd preds)"
    by (simp add: generate_all_heatmaps_def Let_def)
  have 5: "\<forall>d. d \<notin> set known \<longrightarrow> map_of (fst (generate_all_heatmaps E x preds known)) d = None"
    by (simp add: map_of_generate_all stored_unknown)
  have 6: "\<forall>d p i hm. (d, p) \<in> set preds \<and> list_index known d = Inr i \<and> i < length (pathologies E) \<and>
        generate_heatmap E x i = Inr hm \<longrightarrow>
        map_of (fst (generate_all_heatmaps E x preds known)) d = Some hm"
    by (auto simp: map_of_generate_all stored_def image_iff)
  show ?thesis
    using 1 5 6 mset_sorted_reverse [of snd preds] sorted_reverse_descending [of snd preds]
      sorted_reverse_stable [of snd _ preds]
    by blast
qed

lemma srt4: "sorted_reverse snd [(''Normal'', 1 / 10), (''Pneumonia'', 17 / 20 :: real)]
   = [(''Pneumonia'', 17 / 20), (''Normal'', 1 / 10)]"
  by (simp add: sorted_reverse_def)

theorem generate_all_heatmaps_ranking_witness:
  "''Normal'' \<notin> set [''Pneumonia''] \<and>
   map_of (fst (generate_all_heatmaps (constant_engine [''Pneumonia''] 1) ()
        [(''Normal'', 1 / 10), (''Pneumonia'', 17 / 20)] [''Pneumonia''])) ''Normal'' = None \<and>
   snd (generate_all_heatmaps (constant_engine [''Pneumonia''] 1) ()
        [(''Normal'', 1 / 10), (''Pneumonia'', 17 / 20)] [''Pneumonia'']) = [''Pneumonia'', ''Normal'']"
  using generate_all_heatmaps_ranking [of "constant_engine [''Pneumonia''] 1" "()"
      "[(''Normal'', 1 / 10), (''Pneumonia'', 17 / 20)]" "[''Pneumonia'']"]
  by (simp add: srt4)

lemma stored_index:
  "stored E x known d = Some hm \<Longrightarrow> \<exists>i. list_index known d = Inr i \<and> i < length (pathologies E)"
  by (auto simp: stored_def split: sum.splits if_splits)

lemma keys_generate_all:
  assumes "d \<in> fst ` set (fst (generate_all_heatmaps E x preds known))"
  shows "\<exists>i. list_index known d = Inr i \<and> i < length (pathologies E)"
proof -
  from assms have "map_of (fst (generate_all_heatmaps E x preds known)) d \<noteq> None"
    by (simp add: map_of_eq_None_iff)
  then obtain hm where "stored E x known d = Some hm"
    by (auto simp: map_of_generate_all split: if_splits)
  then show ?thesis by (rule stored_index)
qed

text \<open>
  Claim C10. A class whose index among the known classes is not an index of the
  classifier's own class list never gets a map. With the class list that
  \<open>ModelManager\<close> builds, the keys of the map collection are names of the classifier's own
  list, so no dataset disease that was appended after them (such as COVID or
  Tuberculosis) ever has a map, whatever its confidence.
\<close>

theorem heatmaps_only_for_model_outputs:
  "(\<forall>d i. list_index known d = Inr i \<and> length (pathologies E) \<le> i \<longrightarrow>
      map_of (fst (generate_all_heatmaps E x preds known)) d = None) \<and>
   fst ` set (fst (generate_all_heatmaps E x preds (manager_pathologies (pathologies E))))
     \<subseteq> set (pathologies E) \<and>
   (\<forall>d \<in> set dataset_diseases. d \<notin> set (pathologies E) \<longrightarrow>
      map_of (fst (generate_all_heatmaps E x preds (manager_pathologies (pathologies E)))) d = None)"
proof -
  let ?known = "manager_pathologies (pathologies E)"
  have a: "\<forall>d i. list_index known d = Inr i \<and> length (pathologies E) \<le> i \<longrightarrow>
      map_of (fst (generate_all_heatmaps E x preds known)) d = None"
    by (auto simp: map_of_generate_all stored_def)
  have "\<exists>extra. ?known = pathologies E @ extra"
    unfolding manager_pathologies_def by (rule append_missing_prefix)
  then obtain extra where ex: "?known = pathologies E @ extra" ..
  have b: "fst ` set (fst (generate_all_heatmaps E x preds ?known)) \<subseteq> set (pathologies E)"
  proof
    fix d assume d: "d \<in> fst ` set (fst (generate_all_heatmaps E x preds ?known))"
    obtain i where i: "list_index ?known d = Inr i" "i < length (pathologies E)"
      using keys_generate_all [OF d] by auto
    from i(1) have "list_index (pathologies E @ extra) d = Inr i"
      by (simp only: ex)
    then show "d \<in> set (pathologies E)"
      using i(2) by (rule list_index_append)
  qed
  have c: "\<forall>d \<in> set dataset_diseases. d \<notin> set (pathologies E) \<longrightarrow>
      map_of (fst (generate_all_heatmaps E x preds ?known)) d = None"
    using b by (auto simp: map_of_eq_None_iff)
  show ?thesis using a b c by blast
qed

lemma mp1: "manager_pathologies [''Pneumonia''] = [''Pneumonia'', ''COVID'', ''Lung_Opacity'', ''NORMAL'', ''PNEUMONIA'', ''Tuberculosis'']"
  by (simp add: manager_pathologies_def dataset_diseases_def)

lemma li1: "list_index (manager_pathologies [''Pneumonia'']) ''COVID'' = Inr 1"
  by (simp add: mp1)

theorem heatmaps_only_for_model_outputs_witness:
  "list_index (manager_pathologies [''Pneumonia'']) ''COVID'' = Inr 1 \<and>
   length (pathologies (constant_engine [''Pneumonia''] 1)) \<le> 1 \<and>
   map_of (fst (generate_all_heatmaps (constant_engine [''Pneumonia''] 1) ()
        [(''COVID'', 7 / 10), (''Pneumonia'', 17 / 20)] (manager_pathologies [''Pneumonia''])))
     ''COVID'' = None"
proof -
  have l: "length (pathologies (constant_engine [''Pneumonia''] 1)) \<le> 1"
    by (simp add: constant_engine_def)
  show ?thesis
    using heatmaps_only_for_model_outputs [of "manager_pathologies [''Pneumonia'']"
        "constant_engine [''Pneumonia''] 1" "()" "[(''COVID'', 7 / 10), (''Pneumonia'', 17 / 20)]"] li1 l
    by blast
qed

section \<open>The range and the shape of a post-processed map\<close>

lemma borderInterpolate_range: "0 < len \<Longrightarrow> 0 \<le> borderInterpolate p len \<and> borderInterpolate p len < len"
proof (induction p len rule: borderInterpolate.induct)
  case (1 p len)
  show ?case
  proof (cases "0 \<le> p \<and> p < len")
    case True
    then show ?thesis by (simp add: borderInterpolate.simps [of p len])
  next
    case False
    show ?thesis
    proof (cases "len \<le> 1")
      case True
      with False 1(2) show ?thesis by (simp add: borderInterpolate.simps [of p len])
    next
      case l: False
      have eq: "borderInterpolate p len =
                  borderInterpolate (if p < 0 then - p - 1 + 1 else len - 1 - (p - len) - 1) len"
        by (subst borderInterpolate.simps) (simp only: False l if_False)
      show ?thesis
        unfolding eq using 1(1) [OF False l] 1(2) by simp
    qed
  qed
qed

lemma tap_in_set: "xs \<noteq> [] \<Longrightarrow> tap xs p \<in> set xs"
proof -
  assume "xs \<noteq> []"
  then have "0 < int (length xs)" by simp
  from borderInterpolate_range [OF this, of p]
  have "nat (borderInterpolate p (int (length xs))) < length xs" by linarith
  then show ?thesis by (simp add: tap_def)
qed

lemma kernel_sum:
  "(\<Sum>k\<leftarrow>[0..<blur_factor]. gaussian_kernel ! k * f k) =
     1 / 16 * f 0 + 1 / 4 * f 1 + 3 / 8 * f 2 + 1 / 4 * f 3 + 1 / 16 * f 4"
proof -
  have "[0..<blur_factor] = [0, 1, 2, 3, 4]"
    by (simp add: blur_factor_def upt_rec)
  then show ?thesis
    by (simp add: gaussian_kernel_def)
qed

lemma kernel_bounds:
  fixes f :: "nat \<Rightarrow> real"
  assumes "\<And>k. lo \<le> f k \<and> f k \<le> hi"
  shows "lo \<le> (\<Sum>k\<leftarrow>[0..<blur_factor]. gaussian_kernel ! k * f k) \<and>
         (\<Sum>k\<leftarrow>[0..<blur_factor]. gaussian_kernel ! k * f k) \<le> hi"
  unfolding kernel_sum
  using assms [of 0] assms [of 1] assms [of 2] assms [of 3] assms [of 4] by linarith

lemma filter_line_length: "length (filter_line xs) = length xs"
  by (simp add: filter_line_def)

lemma filter_line_bounds:
  assumes "list_all (\<lambda>v. lo \<le> v \<and> v \<le> hi) xs"
  shows "list_all (\<lambda>v. lo \<le> v \<and> v \<le> hi) (filter_line xs)"
proof (cases "xs = []")
  case True
  then show ?thesis by (simp add: filter_line_def)
next
  case False
  have "\<And>p. lo \<le> tap xs p \<and> tap xs p \<le> hi"
    using tap_in_set [OF False] assms by (auto simp: list_all_iff)
  then have "\<And>i. lo \<le> (\<Sum>k\<leftarrow>[0..<blur_factor]. gaussian_kernel ! k * tap xs (int i + int k - 2)) \<and>
         (\<Sum>k\<leftarrow>[0..<blur_factor]. gaussian_kernel ! k * tap xs (int i + int k - 2)) \<le> hi"
    by (intro kernel_bounds) simp
  then show ?thesis
    by (simp add: filter_line_def list_all_iff)
qed

lemma has_shape_nth: "has_shape m h w \<Longrightarrow> i < h \<Longrightarrow> length (m ! i) = w"
  by (auto simp: has_shape_def list_all_length)

lemma has_shape_map_filter_line: "has_shape m h w \<Longrightarrow> has_shape (map filter_line m) h w"
  by (simp add: has_shape_def list_all_iff filter_line_length)

lemma cells_in_map_filter_line: "cells_in lo hi m \<Longrightarrow> cells_in lo hi (map filter_line m)"
  by (induction m) (simp_all add: cells_in_def filter_line_bounds)

lemma filter_columns_shape: "has_shape m h w \<Longrightarrow> has_shape (filter_columns m) h w"
  by (auto simp: has_shape_def list_all_length filter_columns_def)

lemma filter_columns_bounds:
  assumes sh: "has_shape m h w" and c: "cells_in lo hi m"
  shows "cells_in lo hi (filter_columns m)"
proof -
  have cell: "lo \<le> (m ! nat (borderInterpolate p (int (length m)))) ! j \<and>
              (m ! nat (borderInterpolate p (int (length m)))) ! j \<le> hi"
    if "i < length m" "j < length (m ! i)" for i j p
  proof -
    from that(1) have "0 < int (length m)" by (cases m) simp_all
    from borderInterpolate_range [OF this, of p]
    have r: "nat (borderInterpolate p (int (length m))) < length m" by linarith
    have "length m = h" using sh by (simp add: has_shape_def)
    then have "length (m ! nat (borderInterpolate p (int (length m)))) = w" "length (m ! i) = w"
      using has_shape_nth [OF sh] r that(1) by auto
    then have "j < length (m ! nat (borderInterpolate p (int (length m))))"
      using that(2) by simp
    then show ?thesis
      using c r by (auto simp: cells_in_def list_all_length)
  qed
  have "lo \<le> (\<Sum>k\<leftarrow>[0..<blur_factor]. gaussian_kernel ! k *
            (m ! nat (borderInterpolate (int i + int k - 2) (int (length m)))) ! j) \<and>
        (\<Sum>k\<leftarrow>[0..<blur_factor]. gaussian_kernel ! k *
            (m ! nat (borderInterpolate (int i + int k - 2) (int (length m)))) ! j) \<le> hi"
    if "i < length m" "j < length (m ! i)" for i j
    by (intro kernel_bounds) (use cell [OF that] in simp)
  then show ?thesis
    by (simp add: cells_in_def filter_columns_def list_all_length)
qed

lemma GaussianBlur_shape: "has_shape m h w \<Longrightarrow> has_shape (GaussianBlur m) h w"
  by (simp add: GaussianBlur_def filter_columns_shape has_shape_map_filter_line)

lemma GaussianBlur_bounds: "has_shape m h w \<Longrightarrow> cells_in lo hi m \<Longrightarrow> cells_in lo hi (GaussianBlur m)"
  unfolding GaussianBlur_def
  by (rule filter_columns_bounds [OF has_shape_map_filter_line cells_in_map_filter_line])

lemma has_shape_np_maximum0: "has_shape m h w \<Longrightarrow> has_shape (np_maximum0 m) h w"
  by (simp add: has_shape_def np_maximum0_def list_all_iff)

lemma has_shape_divide_cells: "has_shape m h w \<Longrightarrow> has_shape (divide_cells m d) h w"
  by (simp add: has_shape_def divide_cells_def list_all_iff)

lemma np_maximum0_nonneg: "v \<in> set (concat (np_maximum0 m)) \<Longrightarrow> 0 \<le> v"
  by (auto simp: np_maximum0_def)

lemma cells_in_concat: "cells_in lo hi m \<longleftrightarrow> (\<forall>v \<in> set (concat m). lo \<le> v \<and> v \<le> hi)"
  by (auto simp: cells_in_def list_all_iff)

lemma np_max_Max: "concat m \<noteq> [] \<Longrightarrow> np_max m = Inr (Max (set (concat m)))"
proof (cases "concat m")
  case Nil
  moreover assume "concat m \<noteq> []"
  ultimately show ?thesis by simp
next
  case (Cons a as)
  have "Max (set (a # as)) = fold max as a"
    by (rule Max.set_eq_fold)
  then show ?thesis
    unfolding np_max_def Cons by simp
qed

lemma np_max_Inr:
  assumes "np_max m = Inr mx"
  shows "mx \<in> set (concat m) \<and> (\<forall>v \<in> set (concat m). v \<le> mx)"
proof -
  have ne: "concat m \<noteq> []"
  proof
    assume "concat m = []"
    then have "np_max m = Inl ValueError" by (simp only: np_max_def list.case)
    with assms show False by simp
  qed
  have mx: "mx = Max (set (concat m))"
    using assms np_max_Max [OF ne] by (simp only: sum.inject)
  have fin: "finite (set (concat m))" by (rule finite_set)
  have nes: "set (concat m) \<noteq> {}" using ne by (simp only: set_empty not_False_eq_True)
  have "mx \<in> set (concat m)"
    unfolding mx by (rule Max_in [OF fin nes])
  moreover have "\<forall>v \<in> set (concat m). v \<le> mx"
    unfolding mx using Max_ge [OF fin] by blast
  ultimately show ?thesis by (rule conjI)
qed

lemma has_shape_concat_nonempty:
  assumes "has_shape m h w" and "0 < h" and "0 < w"
  shows "concat m \<noteq> []"
proof -
  from assms obtain r rs where m: "m = r # rs"
    by (cases m) (auto simp: has_shape_def)
  with assms have "length r = w" by (simp add: has_shape_def)
  with assms(3) m show ?thesis by auto
qed

lemma concat_divide_cells: "concat (divide_cells m d) = map (\<lambda>v. v / d) (concat m)"
  by (simp add: divide_cells_def map_concat)

lemma divide_cells_one: "divide_cells m 1 = m"
  by (simp add: divide_cells_def)

lemma normalised_unit:
  assumes "np_max (np_maximum0 up) = Inr mx"
  shows "cells_in 0 1 (divide_cells (np_maximum0 up) (if mx \<noteq> 0 then mx else 1))"
proof -
  let ?m = "np_maximum0 up"
  from np_max_Inr [OF assms]
  have mem: "mx \<in> set (concat ?m)" and le: "\<And>v. v \<in> set (concat ?m) \<Longrightarrow> v \<le> mx"
    by blast+
  have nn: "\<And>v. v \<in> set (concat ?m) \<Longrightarrow> 0 \<le> v"
    by (rule np_maximum0_nonneg)
  show ?thesis
  proof (cases "mx = 0")
    case True
    have "0 \<le> v \<and> v \<le> 1" if "v \<in> set (concat ?m)" for v
      using le [OF that] nn [OF that] True by simp
    then show ?thesis
      unfolding cells_in_concat by (simp only: True divide_cells_one if_False simp_thms) blast
  next
    case False
    with nn [OF mem] have pos: "0 < mx" by simp
    have "0 \<le> v / mx \<and> v / mx \<le> 1" if "v \<in> set (concat ?m)" for v
      using le [OF that] nn [OF that] pos by simp
    then show ?thesis
      unfolding cells_in_concat concat_divide_cells using False by auto
  qed
qed

lemma cells_in_const:
  assumes "has_shape m h w" and "cells_in c c m"
  shows "m = replicate h (replicate w c)"
proof -
  have rows: "r = replicate w c" if "r \<in> set m" for r
  proof (rule replicate_eqI)
    show "length r = w" using assms(1) that by (auto simp: has_shape_def list_all_iff)
    show "\<And>y. y \<in> set r \<Longrightarrow> y = c"
      using assms(2) that by (fastforce simp: cells_in_def list_all_iff)
  qed
  show ?thesis
  proof (rule replicate_eqI)
    show "length m = h" using assms(1) by (simp add: has_shape_def)
    show "\<And>y. y \<in> set m \<Longrightarrow> y = replicate w c" by (rule rows)
  qed
qed

lemma has_shape_replicate: "has_shape (replicate h (replicate w c)) h w"
  by (simp add: has_shape_def list_all_iff)

lemma cells_in_replicate: "lo \<le> c \<Longrightarrow> c \<le> hi \<Longrightarrow> cells_in lo hi (replicate h (replicate w c))"
  by (simp add: cells_in_def list_all_iff)

lemma GaussianBlur_const:
  "GaussianBlur (replicate h (replicate w c)) = replicate h (replicate w c)"
  by (rule cells_in_const [OF GaussianBlur_shape [OF has_shape_replicate]
        GaussianBlur_bounds [OF has_shape_replicate cells_in_replicate]]) simp_all

lemma interpolate_constant:
  "interpolate (constant_engine names v) (gradcam_attribute (constant_engine names v) x idx) (h, w)
     = replicate h (replicate w v)"
  by (simp add: constant_engine_def)

lemma np_maximum0_replicate: "np_maximum0 (replicate h (replicate w c)) = replicate h (replicate w (max 0 c))"
  by (simp add: np_maximum0_def)

lemma np_max_replicate: "0 < h \<Longrightarrow> 0 < w \<Longrightarrow> np_max (replicate h (replicate w c)) = Inr c"
proof -
  assume h: "0 < h" and w: "0 < w"
  have ne: "concat (replicate h (replicate w c)) \<noteq> []"
    by (rule has_shape_concat_nonempty [OF has_shape_replicate h w])
  have "set (concat (replicate h (replicate w c))) = {c}"
    using h w by auto
  with ne show ?thesis by (simp add: np_max_Max)
qed

text \<open>
  Claim C1. When the resampling returns a map of the size it is asked for, 224 by 224,
  \<open>generate_heatmap\<close> returns a map of 224 by 224 cells, each between 0 and 1, the
  Gaussian smoothing included: the smoothing is a convex combination of cells of the
  normalised map and leaves the shape as it is.
\<close>

theorem generate_heatmap_unit_range:
  assumes "has_shape (interpolate E (gradcam_attribute E x idx) (224, 224)) 224 224"
  shows "\<exists>hm. generate_heatmap E x idx = Inr hm \<and> has_shape hm 224 224 \<and> cells_in 0 1 hm"
proof -
  let ?m = "np_maximum0 (interpolate E (gradcam_attribute E x idx) (224, 224))"
  have sh: "has_shape ?m 224 224"
    using assms by (rule has_shape_np_maximum0)
  then have "concat ?m \<noteq> []"
    by (rule has_shape_concat_nonempty) simp_all
  then obtain mx where mx: "np_max ?m = Inr mx"
    by (auto simp: np_max_Max)
  let ?n = "divide_cells ?m (if mx \<noteq> 0 then mx else 1)"
  have g: "generate_heatmap E x idx = Inr (GaussianBlur ?n)"
    using mx by (simp add: generate_heatmap_def Let_def)
  have shn: "has_shape ?n 224 224"
    using sh by (rule has_shape_divide_cells)
  have "cells_in 0 1 ?n"
    using mx by (rule normalised_unit)
  with shn have "has_shape (GaussianBlur ?n) 224 224 \<and> cells_in 0 1 (GaussianBlur ?n)"
    by (simp add: GaussianBlur_shape GaussianBlur_bounds)
  with g show ?thesis by blast
qed

theorem generate_heatmap_unit_range_witness:
  "has_shape (interpolate (constant_engine [''Pneumonia''] 1)
       (gradcam_attribute (constant_engine [''Pneumonia''] 1) () 0) (224, 224)) 224 224 \<and>
   (\<exists>hm. generate_heatmap (constant_engine [''Pneumonia''] 1) () 0 = Inr hm \<and>
      has_shape hm 224 224 \<and> cells_in 0 1 hm)"
proof -
  have h: "has_shape (interpolate (constant_engine [''Pneumonia''] 1)
       (gradcam_attribute (constant_engine [''Pneumonia''] 1) () 0) (224, 224)) 224 224"
    unfolding interpolate_constant by (rule has_shape_replicate)
  show ?thesis
    using h generate_heatmap_unit_range [OF h] by blast
qed

text \<open>
  Claim C3. When the maximum that line 27 reads, the one of the clipped map, is exactly
  zero, the map is divided by 1 and not by its maximum, and \<open>generate_heatmap\<close> returns
  the clipped map as it is: every cell is zero, after the smoothing too.
\<close>

theorem generate_heatmap_zero_maximum:
  assumes "has_shape (interpolate E (gradcam_attribute E x idx) (224, 224)) 224 224"
      and "np_max (np_maximum0 (interpolate E (gradcam_attribute E x idx) (224, 224))) = Inr 0"
  shows "generate_heatmap E x idx =
           Inr (np_maximum0 (interpolate E (gradcam_attribute E x idx) (224, 224))) \<and>
         np_maximum0 (interpolate E (gradcam_attribute E x idx) (224, 224)) =
           replicate 224 (replicate 224 0)"
proof -
  let ?m = "np_maximum0 (interpolate E (gradcam_attribute E x idx) (224, 224))"
  have sh: "has_shape ?m 224 224"
    using assms(1) by (rule has_shape_np_maximum0)
  have "cells_in 0 0 ?m"
    using np_max_Inr [OF assms(2)] np_maximum0_nonneg [of _ "interpolate E (gradcam_attribute E x idx) (224, 224)"]
    by (auto simp: cells_in_concat)
  with sh have z: "?m = replicate 224 (replicate 224 0)"
    by (rule cells_in_const)
  have "generate_heatmap E x idx = Inr (GaussianBlur (divide_cells ?m 1))"
    using assms(2) by (simp add: generate_heatmap_def Let_def)
  then have "generate_heatmap E x idx = Inr ?m"
    by (simp add: divide_cells_one z GaussianBlur_const)
  with z show ?thesis by simp
qed

theorem generate_heatmap_zero_maximum_witness:
  "has_shape (interpolate (constant_engine [''Pneumonia''] 0)
       (gradcam_attribute (constant_engine [''Pneumonia''] 0) () 0) (224, 224)) 224 224 \<and>
   np_max (np_maximum0 (interpolate (constant_engine [''Pneumonia''] 0)
       (gradcam_attribute (constant_engine [''Pneumonia''] 0) () 0) (224, 224))) = Inr 0 \<and>
   generate_heatmap (constant_engine [''Pneumonia''] 0) () 0 = Inr (replicate 224 (replicate 224 0))"
proof -
  have h: "has_shape (interpolate (constant_engine [''Pneumonia''] 0)
       (gradcam_attribute (constant_engine [''Pneumonia''] 0) () 0) (224, 224)) 224 224"
    unfolding interpolate_constant by (rule has_shape_replicate)
  have m: "np_max (np_maximum0 (interpolate (constant_engine [''Pneumonia''] 0)
       (gradcam_attribute (constant_engine [''Pneumonia''] 0) () 0) (224, 224))) = Inr 0"
    unfolding interpolate_constant np_maximum0_replicate by (simp add: np_max_replicate)
  show ?thesis
    using h m generate_heatmap_zero_maximum [OF h m] by simp
qed

section \<open>The combined map under zero total weight\<close>

lemma shape_np_zeros: "0 < h \<Longrightarrow> shape0 (np_zeros h w) = h \<and> shape1 (np_zeros h w) = w"
  by (cases h) (simp_all add: np_zeros_def shape0_def shape1_def)

lemma has_shape_np_zeros: "has_shape (np_zeros h w) h w"
  unfolding np_zeros_def by (rule has_shape_replicate)

lemma scale_cells_zero: "has_shape m h w \<Longrightarrow> scale_cells m 0 = np_zeros h w"
proof -
  assume sh: "has_shape m h w"
  have "has_shape (scale_cells m 0) h w"
    using sh by (simp add: has_shape_def scale_cells_def list_all_iff)
  moreover have "cells_in 0 0 (scale_cells m 0)"
    by (simp add: cells_in_def scale_cells_def list_all_iff)
  ultimately show ?thesis
    unfolding np_zeros_def by (rule cells_in_const)
qed

lemma iadd_zeros:
  assumes "1 < h"
  shows "iadd (np_zeros h w) (np_zeros h w) = Inr (np_zeros h w)"
proof -
  from assms have h0: "0 < h" by simp
  have s0: "shape0 (np_zeros h w) = h" and s1: "shape1 (np_zeros h w) = w"
    using shape_np_zeros [OF h0] by simp_all
  let ?b = "map (\<lambda>i. map (\<lambda>j. np_zeros h w ! (if h = 1 then 0 else i)
                                      ! (if w = 1 then 0 else j)) [0..<w]) [0..<h]"
  have b: "broadcast_to (np_zeros h w) h w = Inr ?b"
    by (simp add: broadcast_to_def s0 s1)
  have "has_shape ?b h w"
    by (simp add: has_shape_def list_all_iff)
  moreover have "cells_in 0 0 ?b"
    using assms by (auto simp: cells_in_def list_all_iff np_zeros_def)
  ultimately have bz: "?b = np_zeros h w"
    unfolding np_zeros_def by (rule cells_in_const)
  have "has_shape (map2 (map2 (+)) (np_zeros h w) (np_zeros h w)) h w"
    by (simp add: has_shape_def list_all_iff np_zeros_def)
  moreover have "cells_in 0 0 (map2 (map2 (+)) (np_zeros h w) (np_zeros h w))"
    by (auto simp: cells_in_def list_all_iff np_zeros_def set_zip)
  ultimately have "map2 (map2 (+)) (np_zeros h w) (np_zeros h w) = np_zeros h w"
    unfolding np_zeros_def by (rule cells_in_const)
  moreover have "iadd (np_zeros h w) (np_zeros h w) = Inr (map2 (map2 (+)) (np_zeros h w) ?b)"
    by (simp only: iadd_def s0 s1 b sum.case)
  ultimately show ?thesis
    by (simp only: bz)
qed

lemma combine_loop_zero:
  assumes "\<forall>(d, hm) \<in> set hms. has_shape hm 224 224"
      and "\<forall>(d, hm) \<in> set hms. get_weight preds d = 0"
  shows "combine_loop hms preds (np_zeros 224 224, 0) = Inr (np_zeros 224 224, 0)"
  using assms
proof (induction hms)
  case Nil
  then show ?case by simp
next
  case (Cons a hms)
  obtain d hm where a: "a = (d, hm)" by (cases a)
  from Cons.prems have sh: "has_shape hm 224 224" and w: "get_weight preds d = 0"
    by (simp_all add: a)
  have "iadd (np_zeros 224 224) (scale_cells hm (get_weight preds d)) = Inr (np_zeros 224 224)"
    unfolding w scale_cells_zero [OF sh] by (rule iadd_zeros) simp
  then show ?case
    using Cons.IH Cons.prems by (simp add: a w)
qed

lemma get_weight_nonneg: "\<forall>(d, p) \<in> set preds. 0 \<le> p \<Longrightarrow> 0 \<le> get_weight preds d"
  by (auto simp: get_weight_def split: option.splits dest: map_of_SomeD)

lemma weights_all_zero:
  assumes "\<forall>(d, p) \<in> set preds. 0 \<le> p"
      and "(\<Sum>(d, hm)\<leftarrow>hms. get_weight preds d) = 0"
  shows "\<forall>(d, hm) \<in> set hms. get_weight preds d = 0"
proof -
  have "\<forall>x \<in> set (map (\<lambda>(d, hm). get_weight preds d) hms). 0 \<le> x"
    using get_weight_nonneg [OF assms(1)] by auto
  then have "\<forall>x \<in> set (map (\<lambda>(d, hm). get_weight preds d) hms). x = 0"
    using assms(2) by (simp only: sum_list_nonneg_eq_0_iff)
  then show ?thesis by auto
qed

lemma addWeighted_replicate:
  "addWeighted (replicate h (replicate w p)) al (replicate h (replicate w q)) be ga =
     replicate h (replicate w (blend_pixel al be ga p q))"
  by (simp add: addWeighted_def)

lemma blend_half: "blend_pixel (1 / 2) (1 / 2) 0 (0, 0, 0) (128, 0, 0) = (64, 0, 0)"
  by (simp add: blend_pixel_def blend_channel_def cvRound_def saturate_u8_def)

lemma np_uint8_zero: "np_uint8 0 = 0"
  by (simp add: np_uint8_def py_int_def)

lemma overlay_one_pixel_zero:
  "overlay_heatmap one_pixel_imgproc [[(0, 0, 0)]] (np_zeros 224 224) (1 / 2) = [[(64, 0, 0)]]"
proof -
  have hr: "resize_cubic one_pixel_imgproc [[(0, 0, 0)]] (16, 16) = replicate 16 (replicate 16 (0, 0, 0))"
    by (simp add: one_pixel_imgproc_def)
  have mr: "resize_cubic_map one_pixel_imgproc (np_zeros 224 224) (16, 16) = replicate 16 (replicate 16 0)"
    by (simp add: one_pixel_imgproc_def np_zeros_def)
  have col: "applyColorMap one_pixel_imgproc (replicate 16 (replicate 16 0))
      = replicate 16 (replicate 16 (128, 0, 0))"
    by (simp add: one_pixel_imgproc_def)
  have ar: "\<And>p a b. resize_area one_pixel_imgproc (replicate 16 (replicate 16 p)) (a, b)
      = replicate b (replicate a p)"
    by (simp add: one_pixel_imgproc_def)
  show ?thesis
    by (simp add: overlay_heatmap_def Let_def shape0_def shape1_def resolution_factor_def
        hr mr np_uint8_zero col addWeighted_replicate blend_half ar)
qed

text \<open>
  Claim C2, as the code has it. For a collection that is not empty, of maps of 224 by
  224 cells, and a prediction set with confidences in [0, 1] whose weights for the
  classes of the collection sum to zero, nothing is raised and nothing is divided: the
  accumulated map and the total weight are zero, the combined map is the smoothing of
  the all-zero map, by the same \<open>GaussianBlur\<close> as in \<open>generate_heatmap\<close>, which is
  all-zero again. \<open>create_combined_heatmap\<close> does not return that map: it returns its
  overlay on the original image.
\<close>

theorem combined_heatmap_zero_weight:
  assumes "hms \<noteq> []"
      and "\<forall>(d, hm) \<in> set hms. has_shape hm 224 224"
      and "\<forall>(d, p) \<in> set preds. 0 \<le> p \<and> p \<le> 1"
      and "(\<Sum>(d, hm)\<leftarrow>hms. get_weight preds d) = 0"
  shows "combine_loop hms preds (np_zeros 224 224, 0) = Inr (np_zeros 224 224, 0) \<and>
         combined_heatmap hms preds = Inr (GaussianBlur (np_zeros 224 224)) \<and>
         GaussianBlur (np_zeros 224 224) = np_zeros 224 224 \<and>
         create_combined_heatmap P img hms preds =
           Inr (overlay_heatmap P img (np_zeros 224 224) (1 / 2))"
proof -
  have nn: "\<forall>(d, p) \<in> set preds. 0 \<le> p" using assms(3) by auto
  have l: "combine_loop hms preds (np_zeros 224 224, 0) = Inr (np_zeros 224 224, 0)"
    by (rule combine_loop_zero [OF assms(2) weights_all_zero [OF nn assms(4)]])
  have c: "combined_heatmap hms preds = Inr (GaussianBlur (np_zeros 224 224))"
    by (simp add: combined_heatmap_def l)
  have g: "GaussianBlur (np_zeros 224 224) = np_zeros 224 224"
    unfolding np_zeros_def by (rule GaussianBlur_const)
  have "create_combined_heatmap P img hms preds =
           Inr (overlay_heatmap P img (np_zeros 224 224) (1 / 2))"
    using assms(1) by (simp add: create_combined_heatmap_def c g)
  with l c g show ?thesis by simp
qed

theorem combined_heatmap_zero_weight_witness:
  "[(''Pneumonia'', np_zeros 224 224)] \<noteq> [] \<and>
   has_shape (np_zeros 224 224) 224 224 \<and>
   (\<Sum>(d, hm)\<leftarrow>[(''Pneumonia'', np_zeros 224 224)]. get_weight [(''Pneumonia'', 0)] d) = 0 \<and>
   combined_heatmap [(''Pneumonia'', np_zeros 224 224)] [(''Pneumonia'', 0)] = Inr (np_zeros 224 224) \<and>
   create_combined_heatmap one_pixel_imgproc [[(0, 0, 0)]] [(''Pneumonia'', np_zeros 224 224)]
       [(''Pneumonia'', 0)]
     = Inr (overlay_heatmap one_pixel_imgproc [[(0, 0, 0)]] (np_zeros 224 224) (1 / 2))"
proof -
  have s: "has_shape (np_zeros 224 224) 224 224" by (rule has_shape_np_zeros)
  have a2: "\<forall>(d, hm) \<in> set [(''Pneumonia'', np_zeros 224 224)]. has_shape hm 224 224"
    using s by simp
  have a3: "\<forall>(d, p) \<in> set [(''Pneumonia'', 0 :: real)]. 0 \<le> p \<and> p \<le> 1" by simp
  have a4: "(\<Sum>(d, hm)\<leftarrow>[(''Pneumonia'', np_zeros 224 224)]. get_weight [(''Pneumonia'', 0)] d) = 0"
    by (simp add: get_weight_def)
  have a1: "[(''Pneumonia'', np_zeros 224 224)] \<noteq> []" by simp
  show ?thesis
    using combined_heatmap_zero_weight [OF a1 a2 a3 a4, of one_pixel_imgproc "[[(0, 0, 0)]]"] s a4
    by simp
qed

text \<open>
  One all-zero map with weight 0 over a black image of one pixel: the combined map is
  all-zero, and what is returned is the image blended with the colour of the value 0,
  a pixel (64, 0, 0).
\<close>

theorem combined_heatmap_returns_overlay:
  "combined_heatmap [(''Pneumonia'', np_zeros 224 224)] [(''Pneumonia'', 0)] = Inr (np_zeros 224 224) \<and>
   create_combined_heatmap one_pixel_imgproc [[(0, 0, 0)]] [(''Pneumonia'', np_zeros 224 224)]
       [(''Pneumonia'', 0)] = Inr [[(64, 0, 0)]]"
proof -
  have w: "get_weight [(''Pneumonia'', 0)] ''Pneumonia'' = 0"
    by (simp add: get_weight_def)
  have "combine_loop [(''Pneumonia'', np_zeros 224 224)] [(''Pneumonia'', 0)] (np_zeros 224 224, 0)
          = Inr (np_zeros 224 224, 0)"
    by (rule combine_loop_zero) (simp_all add: has_shape_np_zeros w)
  then have c: "combined_heatmap [(''Pneumonia'', np_zeros 224 224)] [(''Pneumonia'', 0)] = Inr (np_zeros 224 224)"
    using GaussianBlur_const [of 224 224 0] by (simp add: combined_heatmap_def np_zeros_def)
  then show ?thesis
    by (simp add: create_combined_heatmap_def overlay_one_pixel_zero)
qed

section \<open>The blend of the full-map overlay at alpha 0\<close>

text \<open>
  With \<open>alpha = 0\<close> the blend of \<open>overlay_heatmap\<close> returns the upscaled original, pixel
  for pixel, so the overlay is the original image scaled up with \<open>INTER_CUBIC\<close> and
  scaled down again with \<open>INTER_AREA\<close>. Whether that round trip gives the input image
  back is a matter of the resampling arithmetic of OpenCV, which this theory does not
  model.
\<close>

lemma blend_channel_left: "blend_channel 1 0 0 a b = a"
proof -
  have "real (unat a) * 1 + real (unat b) * 0 + 0 = of_int (int (unat a))" by simp
  then have "cvRound (real (unat a) * 1 + real (unat b) * 0 + 0) = int (unat a)"
    using cvRound_of_int [of "int (unat a)"] by simp
  then show ?thesis
    unfolding blend_channel_def using saturate_unat [of a] by simp
qed

lemma blend_pixel_left: "blend_pixel 1 0 0 p q = p"
  by (cases p; cases q) (simp add: blend_pixel_def blend_channel_left)

lemma addWeighted_left:
  assumes "has_shape a h w" and "has_shape b h w"
  shows "addWeighted a 1 b 0 0 = a"
proof (rule nth_equalityI)
  show l: "length (addWeighted a 1 b 0 0) = length a"
    using assms by (simp add: addWeighted_def has_shape_def)
  fix y assume y: "y < length (addWeighted a 1 b 0 0)"
  then have ya: "y < length a" and yb: "y < length b"
    using assms by (simp_all add: addWeighted_def has_shape_def)
  have la: "length (a ! y) = w" and lb: "length (b ! y) = w"
    using assms ya yb by (simp_all add: has_shape_def list_all_length)
  show "addWeighted a 1 b 0 0 ! y = a ! y"
  proof (rule nth_equalityI)
    show "length (addWeighted a 1 b 0 0 ! y) = length (a ! y)"
      using ya yb la lb by (simp add: addWeighted_def)
    fix x assume "x < length (addWeighted a 1 b 0 0 ! y)"
    then have "x < w" using ya yb la lb by (simp add: addWeighted_def)
    then show "addWeighted a 1 b 0 0 ! y ! x = a ! y ! x"
      using ya yb la lb by (simp add: addWeighted_def blend_pixel_left)
  qed
qed

lemma overlay_heatmap_alpha_zero:
  assumes "has_shape (resize_cubic P img (shape1 img * resolution_factor, shape0 img * resolution_factor)) h w"
      and "has_shape (applyColorMap P (map (map (\<lambda>v. np_uint8 (255 * v)))
              (resize_cubic_map P hm (shape1 img * resolution_factor, shape0 img * resolution_factor)))) h w"
  shows "overlay_heatmap P img hm 0 =
           resize_area P (resize_cubic P img (shape1 img * resolution_factor, shape0 img * resolution_factor))
             (shape1 img, shape0 img)"
  using addWeighted_left [OF assms] by (simp add: overlay_heatmap_def Let_def)

end
